theory Spec2Isabelle
  imports Complex_Main "HOL-Library.Multiset" "HOL-Library.Sublist" "HOL-Library.Product_Lexorder"
begin

section \<open>The release tracker: resolution, collection, ordering, view derivation, countdown\<close>

text \<open>
  The repository holds two variants of one React component, \<^verbatim>\<open>App\<close>: the fuller one
  (pagination, colour sort, colour filter, selection) and an earlier one in
  \<^verbatim>\<open>src/App.jsx\<close> (one card request, search only). Definitions without a suffix embed the
  fuller variant; those ending in \<open>_App\<close> embed \<^verbatim>\<open>src/App.jsx\<close>.

  JavaScript numbers are modelled by the rationals with exact arithmetic (the rounding of
  doubles is not modelled); a \<^verbatim>\<open>Date\<close> is its time value, an integer count of
  milliseconds, and an invalid \<^verbatim>\<open>Date\<close> (time value NaN) is \<open>None\<close>.
\<close>

subsection \<open>JavaScript primitives\<close>

text \<open>\<^verbatim>\<open>Math.trunc\<close>, and the remainder operator \<^verbatim>\<open>x % y\<close>, whose result takes the sign
  of the dividend: \<open>x - y * trunc (x / y)\<close>.\<close>

definition js_trunc :: "rat \<Rightarrow> int" where
  "js_trunc x = (if 0 \<le> x then \<lfloor>x\<rfloor> else \<lceil>x\<rceil>)"

definition js_rem :: "rat \<Rightarrow> rat \<Rightarrow> rat" where
  "js_rem x y = x - y * of_int (js_trunc (x / y))"

text \<open>\<^verbatim>\<open>Array.prototype.sort(cmp)\<close>: for a consistent comparator the language fixes the result
  as the stable sort, which every stable algorithm computes; the model inserts each element
  in front of the first one it does not follow. A comparator result NaN counts as \<open>0\<close>.\<close>

fun insert_by :: "('a \<Rightarrow> 'a \<Rightarrow> 'n::{zero,ord}) \<Rightarrow> 'a \<Rightarrow> 'a list \<Rightarrow> 'a list" where
  "insert_by cmp x [] = [x]"
| "insert_by cmp x (y # ys) = (if cmp x y \<le> 0 then x # y # ys else y # insert_by cmp x ys)"

definition js_sort :: "('a \<Rightarrow> 'a \<Rightarrow> 'n::{zero,ord}) \<Rightarrow> 'a list \<Rightarrow> 'a list" where
  "js_sort cmp xs = foldr (insert_by cmp) xs []"

text \<open>\<^verbatim>\<open>String.prototype.toLowerCase\<close> on the ASCII letters (a \<open>char\<close> is a byte; other
  bytes are left as they are), and \<^verbatim>\<open>String.prototype.includes\<close>.\<close>

definition lower_char :: "char \<Rightarrow> char" where
  "lower_char c =
     (let n = (of_char c :: nat) in if 65 \<le> n \<and> n \<le> 90 then char_of (n + 32) else c)"

definition toLowerCase :: "string \<Rightarrow> string" where
  "toLowerCase str = map lower_char str"

fun starts_with :: "string \<Rightarrow> string \<Rightarrow> bool" where
  "starts_with str [] = True"
| "starts_with [] (c # cs) = False"
| "starts_with (x # xs) (c # cs) = (x = c \<and> starts_with xs cs)"

fun js_includes :: "string \<Rightarrow> string \<Rightarrow> bool" where
  "js_includes [] sub = (sub = [])"
| "js_includes (x # xs) sub = (starts_with (x # xs) sub \<or> js_includes xs sub)"

text \<open>Truthiness of an optional string: \<^verbatim>\<open>null\<close>, \<^verbatim>\<open>undefined\<close> and \<^verbatim>\<open>""\<close> are falsy.\<close>

fun truthy :: "string option \<Rightarrow> string option" where
  "truthy None = None"
| "truthy (Some str) = (if str = [] then None else Some str)"

subsection \<open>Countdown\<close>

text \<open>The state cell \<^verbatim>\<open>timeLeft = { d, h, m, s }\<close>.\<close>

record time_left =
  tl_d :: int
  tl_h :: int
  tl_m :: int
  tl_s :: int

text \<open>The body of the interval callback, with \<^verbatim>\<open>prereleaseDate\<close> and \<^verbatim>\<open>now\<close> as time
  values: \<^verbatim>\<open>diff = prereleaseDate - now\<close>.\<close>

definition tick :: "int \<Rightarrow> int \<Rightarrow> time_left" where
  "tick prereleaseDate now =
     (let diff = (of_int (prereleaseDate - now) :: rat) in
      if diff \<le> 0 then \<lparr>tl_d = 0, tl_h = 0, tl_m = 0, tl_s = 0\<rparr>
      else \<lparr>tl_d = \<lfloor>diff / (1000 * 60 * 60 * 24)\<rfloor>,
            tl_h = \<lfloor>js_rem (diff / (1000 * 60 * 60)) 24\<rfloor>,
            tl_m = \<lfloor>js_rem (diff / 1000 / 60) 60\<rfloor>,
            tl_s = \<lfloor>js_rem (diff / 1000) 60\<rfloor>\<rparr>)"

subsection \<open>Selection\<close>

text \<open>\<^verbatim>\<open>toggleSelection\<close> copies the selection set, deletes the id when the copy has it and
  adds it otherwise; the model returns the set that is stored.\<close>

definition toggleSelection :: "string set \<Rightarrow> string \<Rightarrow> string set" where
  "toggleSelection selectedCards i =
     (if i \<in> selectedCards then selectedCards - {i} else insert i selectedCards)"

subsection \<open>Cards\<close>

text \<open>The fields of a card object that the component reads. \<open>None\<close> is an absent field
  (or \<^verbatim>\<open>null\<close>); \<open>image_normal\<close> is \<^verbatim>\<open>image_uris?.normal\<close>, for a card and for a face.
  \<^verbatim>\<open>cmc\<close> is a number on every card, so the comparator of the sort never yields NaN.\<close>

record face =
  face_colors :: "string list option"
  face_image_normal :: "string option"

record card =
  card_id :: string
  name :: string
  colors :: "string list option"
  cmc :: rat
  image_normal :: "string option"
  card_faces :: "face list option"

text \<open>The object literal \<^verbatim>\<open>COLOR_ORDER\<close>, by its own keys (a colour is a letter of the
  API, never the name of a property that an object inherits).\<close>

definition COLOR_ORDER :: "string \<Rightarrow> int option" where
  "COLOR_ORDER = map_of
     [(''W'', 0), (''U'', 1), (''B'', 2), (''R'', 3), (''G'', 4), (''M'', 5), (''C'', 6)]"

definition getColorIndex :: "card \<Rightarrow> int" where
  "getColorIndex c =
     (case colors c of
        None \<Rightarrow> the (COLOR_ORDER ''C'')
      | Some cs \<Rightarrow>
          if length cs = 0 then the (COLOR_ORDER ''C'')
          else if length cs > 1 then the (COLOR_ORDER ''M'')
          else (case COLOR_ORDER (cs ! 0) of Some r \<Rightarrow> r | None \<Rightarrow> 7))"

text \<open>The comparator handed to \<^verbatim>\<open>allFetchedCards.sort\<close>.\<close>

definition compareCards :: "card \<Rightarrow> card \<Rightarrow> rat" where
  "compareCards a b =
     (let colorA = getColorIndex a; colorB = getColorIndex b in
      if colorA \<noteq> colorB then of_int (colorA - colorB) else cmc a - cmc b)"

definition sortedCards :: "card list \<Rightarrow> card list" where
  "sortedCards allFetchedCards = js_sort compareCards allFetchedCards"

text \<open>\<^verbatim>\<open>c.card_faces?.[0]\<close>, then \<^verbatim>\<open>c.colors || c.card_faces?.[0]?.colors || []\<close> (an array,
  also an empty one, is truthy), as the filter and \<^verbatim>\<open>CardItem\<close> read it, and the image
  reference of \<^verbatim>\<open>CardItem\<close>.\<close>

definition first_face :: "card \<Rightarrow> face option" where
  "first_face c = (case card_faces c of None \<Rightarrow> None | Some [] \<Rightarrow> None | Some (f # fs) \<Rightarrow> Some f)"

definition cardColors :: "card \<Rightarrow> string list" where
  "cardColors c =
     (case colors c of
        Some cs \<Rightarrow> cs
      | None \<Rightarrow>
          (case first_face c of
             None \<Rightarrow> []
           | Some f \<Rightarrow> (case face_colors f of Some fc \<Rightarrow> fc | None \<Rightarrow> [])))"

definition card_img :: "card \<Rightarrow> string option" where
  "card_img c =
     (case truthy (image_normal c) of
        Some u \<Rightarrow> Some u
      | None \<Rightarrow> (case first_face c of None \<Rightarrow> None | Some f \<Rightarrow> face_image_normal f))"

subsection \<open>View derivation\<close>

text \<open>The callback of \<^verbatim>\<open>cards.filter\<close> in \<^verbatim>\<open>filteredCards\<close>; \<^verbatim>\<open>activeFilter\<close> is
  \<^verbatim>\<open>null\<close> or the id of a mana filter.\<close>

definition keep_card :: "string \<Rightarrow> string option \<Rightarrow> card \<Rightarrow> bool" where
  "keep_card searchTerm activeFilter c =
     (if \<not> js_includes (toLowerCase (name c)) (toLowerCase searchTerm) then False
      else (case truthy activeFilter of
              Some f \<Rightarrow>
                (let cc = cardColors c in
                 if f = ''C'' then length cc = 0
                 else if f = ''M'' then length cc > 1
                 else length cc = 1 \<and> cc ! 0 = f)
            | None \<Rightarrow> True))"

definition filteredCards :: "card list \<Rightarrow> string \<Rightarrow> string option \<Rightarrow> card list" where
  "filteredCards cards searchTerm activeFilter = filter (keep_card searchTerm activeFilter) cards"

definition filteredCards_App :: "card list \<Rightarrow> string \<Rightarrow> card list" where
  "filteredCards_App cards searchTerm =
     filter (\<lambda>c. js_includes (toLowerCase (name c)) (toLowerCase searchTerm)) cards"

subsection \<open>Release resolution\<close>

record release =
  code :: string
  set_type :: string
  released_at :: "int option"

text \<open>Comparisons of a release date with an instant: with an invalid date both are false.\<close>

fun date_gt :: "int option \<Rightarrow> int \<Rightarrow> bool" where
  "date_gt None t = False"
| "date_gt (Some x) t = (x > t)"

fun date_ge :: "int option \<Rightarrow> int \<Rightarrow> bool" where
  "date_ge None t = False"
| "date_ge (Some x) t = (x \<ge> t)"

text \<open>The comparator of the date sort; the difference with an invalid date is NaN, which the
  sort reads as \<open>0\<close>.\<close>

definition compareReleased :: "release \<Rightarrow> release \<Rightarrow> int" where
  "compareReleased a b =
     (case (released_at a, released_at b) of (Some x, Some y) \<Rightarrow> x - y | _ \<Rightarrow> 0)"

definition candidates :: "release list \<Rightarrow> int \<Rightarrow> release list" where
  "candidates rels now =
     js_sort compareReleased
       (filter (\<lambda>s. date_gt (released_at s) (now - 1000 * 60 * 60 * 24 * 60))
          (filter (\<lambda>s. set_type s \<in> set [''expansion'', ''core'', ''masters'']) rels))"

definition futureSets :: "release list \<Rightarrow> int \<Rightarrow> release list" where
  "futureSets rels now = filter (\<lambda>s. date_ge (released_at s) now) (candidates rels now)"

text \<open>\<^verbatim>\<open>candidates[candidates.length - 1]\<close> of an empty array is \<^verbatim>\<open>undefined\<close>.\<close>

definition targetSet :: "release list \<Rightarrow> int \<Rightarrow> release option" where
  "targetSet rels now =
     (let cs = candidates rels now; fs = futureSets rels now in
      if length fs > 0 then Some (fs ! 0)
      else if cs = [] then None else Some (cs ! (length cs - 1)))"

definition upcoming_App :: "release list \<Rightarrow> int \<Rightarrow> release option" where
  "upcoming_App rels now =
     (case js_sort compareReleased
             (filter (\<lambda>s. set_type s \<in> set [''expansion'', ''core'', ''masters'', ''commander'']
                           \<and> date_gt (released_at s) now) rels) of
        [] \<Rightarrow> None
      | x # xs \<Rightarrow> Some x)"

subsection \<open>Card collection\<close>

text \<open>A request either throws (network failure, a body that is not JSON, a property read
  on \<^verbatim>\<open>null\<close>) or returns the parsed response. Of a page of the card search the loop reads
  \<^verbatim>\<open>data\<close>, \<^verbatim>\<open>has_more\<close> (absent is falsy) and \<^verbatim>\<open>next_page\<close>.\<close>

datatype error = FetchError

record page =
  data :: "card list option"
  has_more :: bool
  next_page :: "string option"

text \<open>The card-search collaborator: a request for a URI, in a state \<open>'w\<close> of the outside
  world, gives a result and the next state.\<close>

type_synonym 'w source = "'w \<Rightarrow> string \<Rightarrow> (error + page) \<times> 'w"

definition SCRYFALL_SEARCH_API :: string where
  "SCRYFALL_SEARCH_API = ''https://api.scryfall.com/cards/search''"

definition search_uri :: "release \<Rightarrow> string" where
  "search_uri t = SCRYFALL_SEARCH_API @ ''?q=set:'' @ code t @ ''&unique=prints''"

definition search_uri_App :: "release \<Rightarrow> string" where
  "search_uri_App t = SCRYFALL_SEARCH_API @ ''?q=set:'' @ code t @ ''&order=spoiled''"

text \<open>What one pass of the loop body does with a page: the accumulator after
  \<^verbatim>\<open>if (cardData.data) allFetchedCards = [...allFetchedCards, ...cardData.data]\<close>, and the
  value of \<^verbatim>\<open>nextUri\<close> after \<^verbatim>\<open>if (cardData.has_more && cardData.next_page)\<close>.\<close>

definition append_page :: "card list \<Rightarrow> page \<Rightarrow> card list" where
  "append_page allFetchedCards cardData =
     (case data cardData of Some cs \<Rightarrow> allFetchedCards @ cs | None \<Rightarrow> allFetchedCards)"

definition next_uri :: "page \<Rightarrow> string option" where
  "next_uri cardData = (if has_more cardData then truthy (next_page cardData) else None)"

text \<open>The loop \<^verbatim>\<open>while (nextUri) { ... }\<close>, entered with a non-empty URI. It has no bound:
  \<open>None\<close> is the loop that never ends, \<open>Some (Inl e)\<close> a request that threw, and
  \<open>Some (Inr cs)\<close> the accumulator at the normal exit.\<close>

partial_function (option) fetch_loop ::
  "'w source \<Rightarrow> 'w \<Rightarrow> string \<Rightarrow> card list \<Rightarrow> (error + card list) option" where
  "fetch_loop fetch w nextUri allFetchedCards =
     (case fetch w nextUri of
        (Inl e, w') \<Rightarrow> Some (Inl e)
      | (Inr cardData, w') \<Rightarrow>
          (case next_uri cardData of
             Some u \<Rightarrow> fetch_loop fetch w' u (append_page allFetchedCards cardData)
           | None \<Rightarrow> Some (Inr (append_page allFetchedCards cardData))))"

subsection \<open>The startup sequence\<close>

record app_state =
  loading :: bool
  currentSet :: "release option"
  cards :: "card list"

text \<open>The body of the \<^verbatim>\<open>try\<close> block of \<^verbatim>\<open>fetchData\<close>: its completion (normal, or the
  exception thrown) and the state it leaves. \<open>sets_response\<close> is the outcome of the request
  for the catalogue, \<open>now\<close> the instant read by \<^verbatim>\<open>new Date()\<close>.\<close>

definition try_block ::
  "(error + release list) \<Rightarrow> int \<Rightarrow> 'w source \<Rightarrow> 'w \<Rightarrow> app_state
     \<Rightarrow> ((error + unit) \<times> app_state) option" where
  "try_block sets_response now fetch w st =
     (let st1 = st\<lparr>loading := True\<rparr> in
      case sets_response of
        Inl e \<Rightarrow> Some (Inl e, st1)
      | Inr rels \<Rightarrow>
          (case targetSet rels now of
             None \<Rightarrow> Some (Inr (), st1)
           | Some t \<Rightarrow>
               (let st2 = st1\<lparr>currentSet := Some t\<rparr> in
                case fetch_loop fetch w (search_uri t) [] of
                  None \<Rightarrow> None
                | Some (Inl e) \<Rightarrow> Some (Inl e, st2)
                | Some (Inr allFetchedCards) \<Rightarrow>
                    Some (Inr (), st2\<lparr>cards := sortedCards allFetchedCards\<rparr>))))"

text \<open>\<^verbatim>\<open>catch\<close> logs the exception and \<^verbatim>\<open>finally\<close> runs \<^verbatim>\<open>setLoading(false)\<close> after
  either completion.\<close>

definition fetchData ::
  "(error + release list) \<Rightarrow> int \<Rightarrow> 'w source \<Rightarrow> 'w \<Rightarrow> app_state \<Rightarrow> app_state option" where
  "fetchData sets_response now fetch w st =
     (case try_block sets_response now fetch w st of
        None \<Rightarrow> None
      | Some (completion, st') \<Rightarrow> Some (st'\<lparr>loading := False\<rparr>))"

text \<open>\<^verbatim>\<open>src/App.jsx\<close>: one request for the cards, whose \<^verbatim>\<open>data\<close> (or \<^verbatim>\<open>[]\<close>) is stored as
  it comes; no loop, so the sequence always ends.\<close>

definition try_block_App ::
  "(error + release list) \<Rightarrow> int \<Rightarrow> 'w source \<Rightarrow> 'w \<Rightarrow> app_state
     \<Rightarrow> (error + unit) \<times> app_state" where
  "try_block_App sets_response now fetch w st =
     (case sets_response of
        Inl e \<Rightarrow> (Inl e, st)
      | Inr rels \<Rightarrow>
          (case upcoming_App rels now of
             None \<Rightarrow> (Inr (), st)
           | Some t \<Rightarrow>
               (let st2 = st\<lparr>currentSet := Some t\<rparr> in
                case fst (fetch w (search_uri_App t)) of
                  Inl e \<Rightarrow> (Inl e, st2)
                | Inr cardData \<Rightarrow>
                    (Inr (), st2\<lparr>cards := (case data cardData of Some cs \<Rightarrow> cs | None \<Rightarrow> [])\<rparr>))))"

definition fetchData_App ::
  "(error + release list) \<Rightarrow> int \<Rightarrow> 'w source \<Rightarrow> 'w \<Rightarrow> app_state \<Rightarrow> app_state" where
  "fetchData_App sets_response now fetch w st =
     (case try_block_App sets_response now fetch w st of
        (completion, st') \<Rightarrow> st'\<lparr>loading := False\<rparr>)"

text \<open>The pages a run of the loop reads, in order: \<open>pages_from fetch w uri ps\<close> holds when
  the request for \<open>uri\<close> returns the first page of \<open>ps\<close>, each further page is the one
  returned for the continuation of the page before it, and the last page is the first one
  that gives no continuation.\<close>

fun pages_from :: "'w source \<Rightarrow> 'w \<Rightarrow> string \<Rightarrow> page list \<Rightarrow> bool" where
  "pages_from fetch w uri [] = False"
| "pages_from fetch w uri (p # ps) =
     (case fetch w uri of
        (Inl e, w') \<Rightarrow> False
      | (Inr q, w') \<Rightarrow>
          q = p \<and> (case next_uri p of None \<Rightarrow> ps = [] | Some u \<Rightarrow> pages_from fetch w' u ps))"

definition page_cards :: "page \<Rightarrow> card list" where
  "page_cards p = (case data p of Some cs \<Rightarrow> cs | None \<Rightarrow> [])"

subsection \<open>Sort keys and filter predicates\<close>

text \<open>The keys by which the two comparators order, and the two filter callbacks of
  \<^verbatim>\<open>candidates\<close> as predicates; \<open>date_key\<close> is only used on valid dates.\<close>

definition card_key :: "card \<Rightarrow> int \<times> rat" where
  "card_key c = (getColorIndex c, cmc c)"

definition date_key :: "release \<Rightarrow> int" where
  "date_key s = (case released_at s of Some x \<Rightarrow> x | None \<Rightarrow> 0)"

definition trackable :: "release \<Rightarrow> bool" where
  "trackable s \<longleftrightarrow> set_type s \<in> set [''expansion'', ''core'', ''masters'']"

definition retained :: "int \<Rightarrow> release \<Rightarrow> bool" where
  "retained now s \<longleftrightarrow>
     set_type s \<in> set [''expansion'', ''core'', ''masters'']
     \<and> date_gt (released_at s) (now - 1000 * 60 * 60 * 24 * 60)"

text \<open>A run of the loop that is cut short: the pages \<open>ps\<close> are read one after the other, each
  gives a continuation, and the request that follows the last of them throws.\<close>

fun pages_then_error :: "'w source \<Rightarrow> 'w \<Rightarrow> string \<Rightarrow> page list \<Rightarrow> bool" where
  "pages_then_error fetch w uri [] = (case fetch w uri of (Inl e, w') \<Rightarrow> True | (Inr q, w') \<Rightarrow> False)"
| "pages_then_error fetch w uri (p # ps) =
     (case fetch w uri of
        (Inl e, w') \<Rightarrow> False
      | (Inr q, w') \<Rightarrow>
          q = p \<and> (case next_uri p of None \<Rightarrow> False | Some u \<Rightarrow> pages_then_error fetch w' u ps))"

subsection \<open>Example inputs\<close>

definition card_R3 :: card where
  "card_R3 = \<lparr>card_id = ''r3'', name = ''Lightning Bolt'', colors = Some [''R''], cmc = 3,
               image_normal = None, card_faces = None\<rparr>"

definition card_C1 :: card where
  "card_C1 = \<lparr>card_id = ''c1'', name = ''Sol Ring'', colors = Some [], cmc = 1,
               image_normal = None, card_faces = None\<rparr>"

definition card_W1 :: card where
  "card_W1 = \<lparr>card_id = ''w1'', name = ''Swords to Plowshares'', colors = Some [''W''], cmc = 1,
               image_normal = None, card_faces = None\<rparr>"

definition card_UB2 :: card where
  "card_UB2 = \<lparr>card_id = ''ub2'', name = ''Baleful Strix'', colors = Some [''U'', ''B''], cmc = 2,
                image_normal = None, card_faces = None\<rparr>"

definition card_WU :: card where
  "card_WU = \<lparr>card_id = ''wu'', name = ''Azorius Charm'', colors = Some [''W'', ''U''], cmc = 2,
               image_normal = None, card_faces = None\<rparr>"

text \<open>A two-faced card as the API sends it: no top-level \<^verbatim>\<open>colors\<close> or \<^verbatim>\<open>image_uris\<close>, both
  on the faces.\<close>

definition card_DFC :: card where
  "card_DFC = \<lparr>card_id = ''dfc'', name = ''Fable of the Mirror-Breaker'', colors = None, cmc = 3,
                image_normal = None,
                card_faces = Some [\<lparr>face_colors = Some [''R''], face_image_normal = Some ''front.jpg''\<rparr>,
                                   \<lparr>face_colors = Some [''R''], face_image_normal = Some ''back.jpg''\<rparr>]\<rparr>"

definition release_bbb :: "int \<Rightarrow> release" where
  "release_bbb now = \<lparr>code = ''bbb'', set_type = ''expansion'', released_at = Some (now + 5 * 86400000)\<rparr>"

definition ex_releases :: "int \<Rightarrow> release list" where
  "ex_releases now =
     [\<lparr>code = ''aaa'', set_type = ''expansion'', released_at = Some (now + 10 * 86400000)\<rparr>,
      release_bbb now,
      \<lparr>code = ''ccc'', set_type = ''unsupported-type'', released_at = Some (now + 1 * 86400000)\<rparr>]"

definition past_releases :: "release list" where
  "past_releases =
     [\<lparr>code = ''old'', set_type = ''core'', released_at = Some (- 40 * 86400000)\<rparr>,
      \<lparr>code = ''new'', set_type = ''masters'', released_at = Some (- 3 * 86400000)\<rparr>,
      \<lparr>code = ''gone'', set_type = ''expansion'', released_at = Some (- 90 * 86400000)\<rparr>,
      \<lparr>code = ''bad'', set_type = ''expansion'', released_at = None\<rparr>]"

text \<open>The state cells as \<^verbatim>\<open>useState\<close> initialises them.\<close>

definition initial_state :: app_state where
  "initial_state = \<lparr>loading = True, currentSet = None, cards = []\<rparr>"





definition page_cut :: page where
  "page_cut = \<lparr>data = Some [card_W1, card_R3], has_more = True, next_page = Some ''page=2''\<rparr>"

definition failing_source :: "nat source" where
  "failing_source n uri = (if n = 0 then Inr page_cut else Inl FetchError, n + 1)"

text \<open>The body of a non-success response, an error object: it has no \<^verbatim>\<open>data\<close>, no
  \<^verbatim>\<open>has_more\<close> and no \<^verbatim>\<open>next_page\<close>. The loop does not look at the status of a response,
  so it reads such a body as a page. A source whose second request is answered by one.\<close>

definition error_body :: page where
  "error_body = \<lparr>data = None, has_more = False, next_page = None\<rparr>"

definition refusing_source :: "nat source" where
  "refusing_source n uri = (if n = 0 then Inr page_cut else Inr error_body, n + 1)"

text \<open>A source every page of which announces a further page.\<close>

definition endless_source :: "unit source" where
  "endless_source w uri = (Inr \<lparr>data = Some [], has_more = True, next_page = Some ''again''\<rparr>, w)"

section \<open>Verification\<close>

subsection \<open>The sort model is the stable sort by a key\<close>

text \<open>Where the comparator agrees with the order of a key, the insertion model is the
  library's stable \<open>sort_key\<close>; its first and last elements have the least and the
  greatest key.\<close>

lemma insert_by_insort_key:
  "(\<And>y. y \<in> set ys \<Longrightarrow> (cmp x y \<le> 0) = (key x \<le> key y))
     \<Longrightarrow> insert_by cmp x ys = insort_key key x ys"
  by (induction ys) simp_all

lemma js_sort_sort_key:
  "(\<And>x y. x \<in> set xs \<Longrightarrow> y \<in> set xs \<Longrightarrow> (cmp x y \<le> 0) = (key x \<le> key y))
     \<Longrightarrow> js_sort cmp xs = sort_key key xs"
proof (induction xs)
  case Nil
  show ?case by (simp add: js_sort_def)
next
  case (Cons x xs)
  have "js_sort cmp xs = sort_key key xs"
    by (rule Cons.IH) (simp_all add: Cons.prems)
  moreover have "insert_by cmp x (sort_key key xs) = insort_key key x (sort_key key xs)"
    by (rule insert_by_insort_key) (simp add: Cons.prems)
  ultimately show ?case
    by (simp add: js_sort_def sort_key_def)
qed

lemma sort_key_first:
  assumes "xs \<noteq> []"
  shows "sort_key f xs ! 0 \<in> set xs" and "y \<in> set xs \<Longrightarrow> f (sort_key f xs ! 0) \<le> f y"
proof -
  let ?ys = "sort_key f xs"
  have len: "0 < length ?ys" using assms by simp
  then have "?ys ! 0 \<in> set ?ys" by (rule nth_mem)
  then show "?ys ! 0 \<in> set xs" by simp
  assume "y \<in> set xs"
  then have "y \<in> set ?ys" by simp
  then obtain j where j: "j < length ?ys" "?ys ! j = y" by (metis in_set_conv_nth)
  have "sorted (map f ?ys)" by (rule sorted_sort_key)
  then have "map f ?ys ! 0 \<le> map f ?ys ! j"
    by (rule sorted_nth_mono) (use j in simp_all)
  then show "f (?ys ! 0) \<le> f y" using j len by simp
qed

lemma sort_key_final:
  assumes "xs \<noteq> []"
  shows "sort_key f xs ! (length (sort_key f xs) - 1) \<in> set xs"
    and "y \<in> set xs \<Longrightarrow> f y \<le> f (sort_key f xs ! (length (sort_key f xs) - 1))"
proof -
  let ?ys = "sort_key f xs"
  let ?n = "length ?ys - 1"
  have len: "?n < length ?ys" using assms by (cases xs) simp_all
  then have "?ys ! ?n \<in> set ?ys" by (rule nth_mem)
  then show "?ys ! ?n \<in> set xs" by simp
  assume "y \<in> set xs"
  then have "y \<in> set ?ys" by simp
  then obtain j where j: "j < length ?ys" "?ys ! j = y" by (metis in_set_conv_nth)
  have "sorted (map f ?ys)" by (rule sorted_sort_key)
  then have "map f ?ys ! j \<le> map f ?ys ! ?n"
    by (rule sorted_nth_mono) (use j len in simp_all)
  then show "f y \<le> f (?ys ! ?n)" using j len by simp
qed

subsection \<open>Card order\<close>

lemma compareCards_key: "(compareCards a b \<le> 0) = (card_key a \<le> card_key b)"
  by (auto simp: compareCards_def card_key_def Let_def less_eq_prod_def)

lemma sortedCards_sort_key: "sortedCards cs = sort_key card_key cs"
  unfolding sortedCards_def by (rule js_sort_sort_key) (rule compareCards_key)

lemma sortedCards_sorted:
  "sorted_wrt (\<lambda>a b. getColorIndex a < getColorIndex b
                  \<or> (getColorIndex a = getColorIndex b \<and> cmc a \<le> cmc b)) (sortedCards cs)"
proof -
  have "sorted (map card_key (sortedCards cs))"
    by (simp add: sortedCards_sort_key)
  then have "sorted_wrt (\<lambda>a b. card_key a \<le> card_key b) (sortedCards cs)"
    by (simp only: sorted_map)
  then show ?thesis
    by (rule sorted_wrt_mono_rel [rotated]) (auto simp: card_key_def less_eq_prod_def)
qed

lemma sortedCards_stable:
  "filter (\<lambda>c. getColorIndex c = r \<and> cmc c = m) (sortedCards cs)
     = filter (\<lambda>c. getColorIndex c = r \<and> cmc c = m) cs"
  using sort_key_stable [of card_key "(r, m)" cs]
  by (simp add: sortedCards_sort_key card_key_def)

lemma getColorIndex_classes:
  "getColorIndex (c\<lparr>colors := None\<rparr>) = 6"
  "getColorIndex (c\<lparr>colors := Some []\<rparr>) = 6"
  "getColorIndex (c\<lparr>colors := Some [''W'']\<rparr>) = 0"
  "getColorIndex (c\<lparr>colors := Some [''U'']\<rparr>) = 1"
  "getColorIndex (c\<lparr>colors := Some [''B'']\<rparr>) = 2"
  "getColorIndex (c\<lparr>colors := Some [''R'']\<rparr>) = 3"
  "getColorIndex (c\<lparr>colors := Some [''G'']\<rparr>) = 4"
  "getColorIndex (c\<lparr>colors := Some (x # y # zs)\<rparr>) = 5"
  by (simp_all add: getColorIndex_def COLOR_ORDER_def)

lemma sortedCards_example:
  "sortedCards [card_R3, card_C1, card_W1, card_UB2] = [card_W1, card_R3, card_UB2, card_C1]"
  by (simp add: sortedCards_def js_sort_def compareCards_def getColorIndex_def COLOR_ORDER_def
        card_R3_def card_C1_def card_W1_def card_UB2_def)

text \<open>C1: the sorted list is a rearrangement of the collected one, ordered by colour-class rank
  first and converted cost second, and cards equal on both keys keep their arrival order.
  The rank is 6 for a card with no colours, 0 to 4 for a card whose one colour is W, U, B, R
  or G, and 5 for a card with more than one colour. The four cards R (cost 3), colourless
  (cost 1), W (cost 1), U-B (cost 2) come out as W, R, U-B, colourless.\<close>

theorem sortedCards_spec:
  "sorted_wrt (\<lambda>a b. getColorIndex a < getColorIndex b
                  \<or> (getColorIndex a = getColorIndex b \<and> cmc a \<le> cmc b)) (sortedCards cs)
   \<and> mset (sortedCards cs) = mset cs
   \<and> (\<forall>r m. filter (\<lambda>c. getColorIndex c = r \<and> cmc c = m) (sortedCards cs)
              = filter (\<lambda>c. getColorIndex c = r \<and> cmc c = m) cs)
   \<and> getColorIndex (c\<lparr>colors := None\<rparr>) = 6
   \<and> getColorIndex (c\<lparr>colors := Some []\<rparr>) = 6
   \<and> getColorIndex (c\<lparr>colors := Some [''W'']\<rparr>) = 0
   \<and> getColorIndex (c\<lparr>colors := Some [''U'']\<rparr>) = 1
   \<and> getColorIndex (c\<lparr>colors := Some [''B'']\<rparr>) = 2
   \<and> getColorIndex (c\<lparr>colors := Some [''R'']\<rparr>) = 3
   \<and> getColorIndex (c\<lparr>colors := Some [''G'']\<rparr>) = 4
   \<and> getColorIndex (c\<lparr>colors := Some (x # y # zs)\<rparr>) = 5
   \<and> sortedCards [card_R3, card_C1, card_W1, card_UB2] = [card_W1, card_R3, card_UB2, card_C1]"
proof -
  have perm: "mset (sortedCards cs) = mset cs"
    by (simp add: sortedCards_sort_key)
  show ?thesis
    by (intro conjI allI sortedCards_sorted sortedCards_stable getColorIndex_classes
          sortedCards_example perm)
qed

subsection \<open>Release resolution\<close>

lemma date_sort:
  assumes "\<And>x. x \<in> set xs \<Longrightarrow> released_at x \<noteq> None"
  shows "js_sort compareReleased xs = sort_key date_key xs"
proof (rule js_sort_sort_key)
  fix x y assume "x \<in> set xs" "y \<in> set xs"
  then obtain a b where "released_at x = Some a" "released_at y = Some b"
    using assms by fastforce
  then show "(compareReleased x y \<le> 0) = (date_key x \<le> date_key y)"
    by (simp add: compareReleased_def date_key_def)
qed

lemma date_gt_Some: "date_gt r t \<longleftrightarrow> (\<exists>x. r = Some x \<and> t < x)"
  by (cases r) auto

lemma date_ge_Some: "date_ge r t \<longleftrightarrow> (\<exists>x. r = Some x \<and> t \<le> x)"
  by (cases r) auto

lemma candidates_sort_key:
  "candidates rels now = sort_key date_key (filter (retained now) rels)"
proof -
  have "filter (\<lambda>s. date_gt (released_at s) (now - 1000 * 60 * 60 * 24 * 60))
          (filter (\<lambda>s. set_type s \<in> set [''expansion'', ''core'', ''masters'']) rels)
        = filter (retained now) rels"
    unfolding filter_filter by (rule filter_cong [OF refl]) (simp add: retained_def)
  then have "candidates rels now = js_sort compareReleased (filter (retained now) rels)"
    by (simp only: candidates_def)
  also have "\<dots> = sort_key date_key (filter (retained now) rels)"
    by (rule date_sort) (auto simp: retained_def date_gt_Some)
  finally show ?thesis .
qed

lemma futureSets_sort_key:
  "futureSets rels now
     = sort_key date_key (filter (\<lambda>s. date_ge (released_at s) now) (filter (retained now) rels))"
  by (simp only: futureSets_def candidates_sort_key filter_sort)

lemma targetSet_future:
  assumes "filter (\<lambda>s. date_ge (released_at s) now) (filter (retained now) rels) \<noteq> []"
  shows "\<exists>t d. targetSet rels now = Some t \<and> t \<in> set rels \<and> retained now t
           \<and> released_at t = Some d \<and> now \<le> d
           \<and> (\<forall>s\<in>set rels. retained now s \<and> date_ge (released_at s) now
                  \<longrightarrow> date_ge (released_at s) d)"
proof -
  let ?F = "filter (\<lambda>s. date_ge (released_at s) now) (filter (retained now) rels)"
  let ?t = "sort_key date_key ?F ! 0"
  have fs: "futureSets rels now = sort_key date_key ?F"
    by (rule futureSets_sort_key)
  have "length (futureSets rels now) > 0"
    using assms by (simp add: fs)
  then have "targetSet rels now = Some (futureSets rels now ! 0)"
    by (simp add: targetSet_def Let_def)
  then have tgt: "targetSet rels now = Some ?t"
    by (simp only: fs)
  have mem: "?t \<in> set ?F" by (rule sort_key_first(1) [OF assms])
  then have t: "?t \<in> set rels" "retained now ?t" "date_ge (released_at ?t) now"
    by simp_all
  then obtain d where d: "released_at ?t = Some d" "now \<le> d"
    by (auto simp: date_ge_Some)
  have "date_ge (released_at s) d" if s: "s \<in> set rels" "retained now s" "date_ge (released_at s) now" for s
  proof -
    have "s \<in> set ?F" using s by simp
    then have "date_key ?t \<le> date_key s" by (rule sort_key_first(2) [OF assms])
    moreover obtain e where "released_at s = Some e" using s(3) by (auto simp: date_ge_Some)
    ultimately show ?thesis using d by (simp add: date_key_def)
  qed
  then show ?thesis using tgt t d by blast
qed

lemma targetSet_past:
  assumes "filter (\<lambda>s. date_ge (released_at s) now) (filter (retained now) rels) = []"
    and "filter (retained now) rels \<noteq> []"
  shows "\<exists>t d. targetSet rels now = Some t \<and> t \<in> set rels \<and> retained now t
           \<and> released_at t = Some d \<and> d < now
           \<and> (\<forall>s\<in>set rels. retained now s \<longrightarrow> \<not> date_gt (released_at s) d)"
proof -
  let ?C = "filter (retained now) rels"
  let ?cs = "sort_key date_key ?C"
  let ?t = "?cs ! (length ?cs - 1)"
  have fs: "futureSets rels now = []"
    using assms(1) by (simp only: futureSets_sort_key sort_key_simps)
  have cs: "candidates rels now = ?cs" by (rule candidates_sort_key)
  have "?cs \<noteq> []" using assms(2) by (metis length_sort length_0_conv)
  then have tgt: "targetSet rels now = Some ?t"
    by (simp add: targetSet_def Let_def fs cs)
  have mem: "?t \<in> set ?C" by (rule sort_key_final(1) [OF assms(2)])
  then have t: "?t \<in> set rels" "retained now ?t" by simp_all
  then obtain d where d: "released_at ?t = Some d"
    by (auto simp: retained_def date_gt_Some)
  have "\<not> date_ge (released_at ?t) now"
    using assms(1) mem by (auto simp: filter_empty_conv)
  then have past: "d < now" using d by simp
  have "\<not> date_gt (released_at s) d" if s: "s \<in> set rels" "retained now s" for s
  proof -
    have "s \<in> set ?C" using s by simp
    then have "date_key s \<le> date_key ?t" by (rule sort_key_final(2) [OF assms(2)])
    moreover obtain e where "released_at s = Some e"
      using s(2) by (auto simp: retained_def date_gt_Some)
    ultimately show ?thesis using d by (simp add: date_key_def)
  qed
  then show ?thesis using tgt t d past by blast
qed

lemma targetSet_none:
  assumes "filter (retained now) rels = []"
  shows "targetSet rels now = None"
  using assms by (simp add: targetSet_def Let_def futureSets_sort_key candidates_sort_key)

lemma retained_trackable:
  "retained now s \<longleftrightarrow> trackable s \<and> date_gt (released_at s) (now - 5184000000)"
  by (simp add: retained_def trackable_def)

lemma trackable_future:
  "trackable s \<and> date_ge (released_at s) now \<longleftrightarrow> retained now s \<and> date_ge (released_at s) now"
  by (cases "released_at s") (auto simp: retained_trackable)

lemma targetSet_example: "targetSet (ex_releases now) now = Some (release_bbb now)"
  by (simp add: targetSet_def futureSets_def candidates_def ex_releases_def release_bbb_def
        js_sort_def compareReleased_def Let_def)

lemma upcoming_App_strict:
  "\<forall>s\<in>set rels. \<not> date_gt (released_at s) now \<Longrightarrow> upcoming_App rels now = None"
proof -
  assume "\<forall>s\<in>set rels. \<not> date_gt (released_at s) now"
  then have "filter (\<lambda>s. set_type s \<in> set [''expansion'', ''core'', ''masters'', ''commander'']
                          \<and> date_gt (released_at s) now) rels = []"
    by (simp add: filter_empty_conv)
  then show ?thesis
    by (simp only: upcoming_App_def js_sort_def foldr.simps id_apply list.case)
qed

text \<open>C3: when some trackable release has a date at or after \<open>now\<close>, the target is such a
  release and none of them is earlier; when there is none but some candidate lies in the
  retention window (later than 60 days before \<open>now\<close>), the target is a past candidate and no
  candidate is later; with no candidate there is no target. For aaa in 10 days, bbb in
  5 days and ccc of an unsupported type in 1 day, the target is bbb.\<close>

theorem targetSet_spec:
  "((\<exists>s\<in>set rels. trackable s \<and> date_ge (released_at s) now) \<longrightarrow>
      (\<exists>t d. targetSet rels now = Some t \<and> t \<in> set rels \<and> trackable t
         \<and> released_at t = Some d \<and> now \<le> d
         \<and> (\<forall>s\<in>set rels. trackable s \<and> date_ge (released_at s) now
                \<longrightarrow> date_ge (released_at s) d)))
   \<and> (\<not> (\<exists>s\<in>set rels. trackable s \<and> date_ge (released_at s) now)
        \<and> (\<exists>s\<in>set rels. retained now s) \<longrightarrow>
      (\<exists>t d. targetSet rels now = Some t \<and> t \<in> set rels \<and> retained now t
         \<and> released_at t = Some d \<and> d < now
         \<and> (\<forall>s\<in>set rels. retained now s \<longrightarrow> \<not> date_gt (released_at s) d)))
   \<and> (\<not> (\<exists>s\<in>set rels. retained now s) \<longrightarrow> targetSet rels now = None)
   \<and> targetSet (ex_releases now) now
       = Some (release_bbb now)"
proof (intro conjI impI)
  let ?C = "filter (retained now) rels"
  let ?F = "filter (\<lambda>s. date_ge (released_at s) now) ?C"
  {
    assume "\<exists>s\<in>set rels. trackable s \<and> date_ge (released_at s) now"
    then have "?F \<noteq> []"
      by (auto simp: filter_empty_conv trackable_future)
    from targetSet_future [OF this]
    show "\<exists>t d. targetSet rels now = Some t \<and> t \<in> set rels \<and> trackable t
         \<and> released_at t = Some d \<and> now \<le> d
         \<and> (\<forall>s\<in>set rels. trackable s \<and> date_ge (released_at s) now
                \<longrightarrow> date_ge (released_at s) d)"
      unfolding trackable_future by (metis retained_trackable)
  next
    assume a: "\<not> (\<exists>s\<in>set rels. trackable s \<and> date_ge (released_at s) now)
               \<and> (\<exists>s\<in>set rels. retained now s)"
    then have "?F = []" "?C \<noteq> []"
      by (auto simp: filter_empty_conv trackable_future)
    then show "\<exists>t d. targetSet rels now = Some t \<and> t \<in> set rels \<and> retained now t
         \<and> released_at t = Some d \<and> d < now
         \<and> (\<forall>s\<in>set rels. retained now s \<longrightarrow> \<not> date_gt (released_at s) d)"
      by (rule targetSet_past)
  next
    assume "\<not> (\<exists>s\<in>set rels. retained now s)"
    then have "?C = []" by (auto simp: filter_empty_conv)
    then show "targetSet rels now = None" by (rule targetSet_none)
  next
    show "targetSet (ex_releases now) now
       = Some (release_bbb now)"
      by (rule targetSet_example)
  }
qed

theorem targetSet_spec_witness:
  "(\<exists>s\<in>set (ex_releases 0). trackable s \<and> date_ge (released_at s) 0)
   \<and> (\<exists>t d. targetSet (ex_releases 0) 0 = Some t \<and> trackable t \<and> released_at t = Some d \<and> 0 \<le> d)
   \<and> \<not> (\<exists>s\<in>set past_releases. trackable s \<and> date_ge (released_at s) 0)
   \<and> (\<exists>s\<in>set past_releases. retained 0 s)
   \<and> (\<exists>t d. targetSet past_releases 0 = Some t \<and> retained 0 t \<and> released_at t = Some d \<and> d < 0)
   \<and> \<not> (\<exists>s\<in>set []. retained 0 s) \<and> targetSet [] 0 = None"
proof -
  have h1: "\<exists>s\<in>set (ex_releases 0). trackable s \<and> date_ge (released_at s) 0"
    by (simp add: ex_releases_def trackable_def)
  have h2: "\<not> (\<exists>s\<in>set past_releases. trackable s \<and> date_ge (released_at s) 0)"
    by (simp add: past_releases_def trackable_def)
  have h3: "\<exists>s\<in>set past_releases. retained 0 s"
    by (simp add: past_releases_def retained_def)
  have h4: "\<not> (\<exists>s\<in>set []. retained 0 s)" by simp
  show ?thesis
    using targetSet_spec [of "ex_releases 0" 0] targetSet_spec [of past_releases 0]
      targetSet_spec [of "[]" 0] h1 h2 h3 h4
    by blast
qed

subsection \<open>View derivation\<close>

lemma starts_with_prefix: "starts_with xs ys \<longleftrightarrow> prefix ys xs"
  by (induction xs ys rule: starts_with.induct) auto

lemma js_includes_sublist: "js_includes xs ys \<longleftrightarrow> sublist ys xs"
  by (induction xs) (simp_all add: starts_with_prefix sublist_Cons_right)

lemma single_colour: "(length cc = Suc 0 \<and> cc ! 0 = f) \<longleftrightarrow> cc = [f]"
  by (cases cc) auto

lemma keep_card_iff:
  "keep_card searchTerm activeFilter c \<longleftrightarrow>
     sublist (toLowerCase searchTerm) (toLowerCase (name c))
     \<and> (case truthy activeFilter of
          None \<Rightarrow> True
        | Some f \<Rightarrow>
            if f = ''C'' then cardColors c = []
            else if f = ''M'' then length (cardColors c) > 1
            else cardColors c = [f])"
  by (simp add: keep_card_def js_includes_sublist single_colour Let_def split: option.splits)

text \<open>C4: under an active filter a card passes exactly when the filter is the colourless one
  and the card has no colours, or the multicolour one and the card has more than one, or
  a colour letter and the card's colours are that one letter; the search text is a
  separate conjunct. A card with colours W, U fails the filter W and passes the
  multicolour filter.\<close>

theorem color_filter_spec:
  "f \<noteq> [] \<Longrightarrow>
     (keep_card [] (Some f) c \<longleftrightarrow>
        (f = ''C'' \<and> length (cardColors c) = 0)
        \<or> (f = ''M'' \<and> length (cardColors c) > 1)
        \<or> (f \<noteq> ''C'' \<and> f \<noteq> ''M'' \<and> cardColors c = [f]))
     \<and> (keep_card searchTerm (Some f) c \<longleftrightarrow>
          keep_card searchTerm None c \<and> keep_card [] (Some f) c)
     \<and> \<not> keep_card [] (Some ''W'') (c\<lparr>colors := Some [''W'', ''U'']\<rparr>)
     \<and> keep_card [] (Some ''M'') (c\<lparr>colors := Some [''W'', ''U'']\<rparr>)"
  by (auto simp: keep_card_iff toLowerCase_def cardColors_def)

theorem color_filter_spec_witness:
  "''W'' \<noteq> [] \<and> \<not> keep_card [] (Some ''W'') card_WU \<and> keep_card [] (Some ''M'') card_WU
   \<and> cardColors card_WU = [''W'', ''U'']"
  using color_filter_spec [of "''W''" card_WU "[]"] color_filter_spec [of "''M''" card_WU "[]"]
  by (simp add: card_WU_def cardColors_def)

text \<open>C7: with a filter that is unset or a mana id, the derived list is the input list
  restricted to the cards whose lower-cased name contains the lower-cased search text and
  that pass the colour filter when one is set; it is a subsequence of the input, the empty
  search with no filter keeps every card, the earlier variant is the case without a filter,
  and the search text bolt finds Lightning Bolt.\<close>

theorem filteredCards_spec:
  "activeFilter \<noteq> Some [] \<Longrightarrow>
     filteredCards cs searchTerm activeFilter
       = filter (\<lambda>c. sublist (toLowerCase searchTerm) (toLowerCase (name c))
                    \<and> (case activeFilter of
                         None \<Rightarrow> True
                       | Some f \<Rightarrow>
                           (f = ''C'' \<and> length (cardColors c) = 0)
                           \<or> (f = ''M'' \<and> length (cardColors c) > 1)
                           \<or> (f \<noteq> ''C'' \<and> f \<noteq> ''M'' \<and> cardColors c = [f]))) cs
     \<and> subseq (filteredCards cs searchTerm activeFilter) cs
     \<and> filteredCards cs [] None = cs
     \<and> filteredCards_App cs searchTerm = filteredCards cs searchTerm None
     \<and> filteredCards [c\<lparr>name := ''Lightning Bolt''\<rparr>] ''bolt'' None = [c\<lparr>name := ''Lightning Bolt''\<rparr>]"
proof -
  assume a: "activeFilter \<noteq> Some []"
  have bolt: "sublist (toLowerCase ''bolt'') (toLowerCase ''Lightning Bolt'')"
    unfolding js_includes_sublist [symmetric] by code_simp
  have 1: "filteredCards cs searchTerm activeFilter
       = filter (\<lambda>c. sublist (toLowerCase searchTerm) (toLowerCase (name c))
                    \<and> (case activeFilter of
                         None \<Rightarrow> True
                       | Some f \<Rightarrow>
                           (f = ''C'' \<and> length (cardColors c) = 0)
                           \<or> (f = ''M'' \<and> length (cardColors c) > 1)
                           \<or> (f \<noteq> ''C'' \<and> f \<noteq> ''M'' \<and> cardColors c = [f]))) cs"
    unfolding filteredCards_def using a
    by (intro filter_cong refl) (auto simp: keep_card_iff split: option.splits)
  have 2: "subseq (filteredCards cs searchTerm activeFilter) cs"
    by (simp add: filteredCards_def)
  have 3: "filteredCards cs [] None = cs"
    by (simp add: filteredCards_def keep_card_iff toLowerCase_def)
  have 4: "filteredCards_App cs searchTerm = filteredCards cs searchTerm None"
    unfolding filteredCards_def filteredCards_App_def
    by (intro filter_cong refl) (simp add: keep_card_iff js_includes_sublist)
  have 5: "filteredCards [c\<lparr>name := ''Lightning Bolt''\<rparr>] ''bolt'' None = [c\<lparr>name := ''Lightning Bolt''\<rparr>]"
    using bolt by (simp add: filteredCards_def keep_card_iff)
  show ?thesis using 1 2 3 4 5 by blast
qed

theorem filteredCards_spec_witness:
  "Some ''R'' \<noteq> Some []
   \<and> filteredCards [card_R3, card_WU] ''bolt'' (Some ''R'') = [card_R3]
   \<and> subseq (filteredCards [card_R3, card_WU] ''bolt'' (Some ''R'')) [card_R3, card_WU]"
proof -
  have s1: "sublist (toLowerCase ''bolt'') (toLowerCase ''Lightning Bolt'')"
    unfolding js_includes_sublist [symmetric] by code_simp
  have s2: "\<not> sublist (toLowerCase ''bolt'') (toLowerCase ''Azorius Charm'')"
    unfolding js_includes_sublist [symmetric] by code_simp
  show ?thesis
    using filteredCards_spec [of "Some ''R''" "[card_R3, card_WU]" "''bolt''"] s1 s2
    by (simp add: card_R3_def card_WU_def cardColors_def)
qed

subsection \<open>Card collection\<close>

lemma append_page_cards: "append_page acc p = acc @ page_cards p"
  by (simp add: append_page_def page_cards_def split: option.splits)

lemma fetch_loop_pages:
  "pages_from fetch w uri ps
     \<Longrightarrow> fetch_loop fetch w uri acc = Some (Inr (acc @ concat (map page_cards ps)))"
proof (induction ps arbitrary: w uri acc)
  case Nil
  then show ?case by simp
next
  case (Cons p ps)
  show ?case
    using Cons.prems Cons.IH
    by (subst fetch_loop.simps)
       (auto split: prod.splits sum.splits option.splits simp: append_page_cards)
qed


lemma fetch_loop_cut:
  "pages_then_error fetch w uri ps \<Longrightarrow> \<exists>e. fetch_loop fetch w uri acc = Some (Inl e)"
proof (induction ps arbitrary: w uri acc)
  case Nil
  then show ?case
    by (subst fetch_loop.simps) (auto split: prod.splits sum.splits)
next
  case (Cons p ps)
  show ?case
    using Cons.prems Cons.IH
    by (subst fetch_loop.simps) (auto split: prod.splits sum.splits option.splits)
qed

lemma length_sortedCards: "length (sortedCards cs) = length cs"
proof -
  have "length (insert_by cmp x ys) = Suc (length ys)" for cmp :: "card \<Rightarrow> card \<Rightarrow> rat" and x ys
    by (induction ys) simp_all
  then show ?thesis
    unfolding sortedCards_def js_sort_def by (induction cs) simp_all
qed

text \<open>On the endless source the loop does not return.\<close>

lemma fetch_loop_endless: "fetch_loop endless_source w uri acc = None"
proof (rule ccontr)
  assume "fetch_loop endless_source w uri acc \<noteq> None"
  then obtain r where r: "fetch_loop endless_source w uri acc = Some r" by blast
  have "endless_source \<noteq> endless_source"
  proof (rule fetch_loop.raw_induct
           [where P = "\<lambda>(fetch :: unit source) w uri acc (r :: error + card list).
                         fetch \<noteq> endless_source", OF _ r])
    fix loop :: "unit source \<Rightarrow> unit \<Rightarrow> string \<Rightarrow> card list \<Rightarrow> (error + card list) option"
      and fetch w uri acc r
    assume ih: "\<And>fetch w uri acc r. loop fetch w uri acc = Some r \<Longrightarrow> fetch \<noteq> endless_source"
      and step: "(case fetch w uri of
                    (Inl e, w') \<Rightarrow> Some (Inl e)
                  | (Inr cardData, w') \<Rightarrow>
                      (case next_uri cardData of
                         None \<Rightarrow> Some (Inr (append_page acc cardData))
                       | Some u \<Rightarrow> loop fetch w' u (append_page acc cardData))) = Some r"
    show "fetch \<noteq> endless_source"
    proof
      assume "fetch = endless_source"
      with step have "\<exists>w' acc'. loop endless_source w' ''again'' acc' = Some r"
        by (auto simp: endless_source_def next_uri_def)
      with ih show False by blast
    qed
  qed
  then show False by simp
qed




lemma single_fetch_App:
  "upcoming_App rels now = Some t \<Longrightarrow> fst (fetch w (search_uri_App t)) = Inr p
     \<Longrightarrow> cards (fetchData_App (Inr rels) now fetch w st) = page_cards p"
  by (simp add: fetchData_App_def try_block_App_def page_cards_def Let_def split: prod.splits)

subsection \<open>The startup sequence\<close>

lemma fetchData_threw:
  "targetSet rels now = Some t \<Longrightarrow> fetch_loop fetch w (search_uri t) [] = Some (Inl e)
     \<Longrightarrow> fetchData (Inr rels) now fetch w st = Some (st\<lparr>loading := False, currentSet := Some t\<rparr>)"
  by (simp add: fetchData_def try_block_def Let_def)

lemma fetchData_completed:
  "targetSet rels now = Some t \<Longrightarrow> fetch_loop fetch w (search_uri t) [] = Some (Inr cs)
     \<Longrightarrow> fetchData (Inr rels) now fetch w st
           = Some (st\<lparr>loading := False, currentSet := Some t, cards := sortedCards cs\<rparr>)"
  by (simp add: fetchData_def try_block_def Let_def)

lemma fetchData_no_target:
  "targetSet rels now = None \<Longrightarrow> fetchData (Inr rels) now fetch w st = Some (st\<lparr>loading := False\<rparr>)"
  by (simp add: fetchData_def try_block_def Let_def)

lemma fetchData_sets_threw:
  "fetchData (Inl e) now fetch w st = Some (st\<lparr>loading := False\<rparr>)"
  by (simp add: fetchData_def try_block_def Let_def)

lemma fetchData_None:
  "fetchData sets_response now fetch w st = None \<longleftrightarrow>
     (\<exists>rels t. sets_response = Inr rels \<and> targetSet rels now = Some t
        \<and> fetch_loop fetch w (search_uri t) [] = None)"
  by (auto simp: fetchData_def try_block_def Let_def split: sum.splits option.splits)

lemma fetchData_endless:
  "fetchData (Inr (ex_releases 0)) 0 endless_source () initial_state = None"
  by (simp add: fetchData_def try_block_def Let_def fetch_loop_endless targetSet_example)

lemma failing_source_cut:
  "pages_then_error failing_source 0 uri [page_cut]"
  by (simp add: failing_source_def page_cut_def next_uri_def)

lemma refusing_source_run:
  "pages_from refusing_source 0 uri ([page_cut] @ [error_body])"
  by (simp add: refusing_source_def page_cut_def error_body_def next_uri_def)

text \<open>C5, as stated, fails: the first page delivers two cards, the second request throws, and
  the card list published is empty.\<close>

theorem partial_pagination_counterexample:
  "fst (failing_source 0 (search_uri (release_bbb 0))) = Inr page_cut
   \<and> data page_cut = Some [card_W1, card_R3]
   \<and> next_uri page_cut = Some ''page=2''
   \<and> fst (failing_source 1 ''page=2'') = Inl FetchError
   \<and> fetchData (Inr (ex_releases 0)) 0 failing_source 0 initial_state
       = Some \<lparr>loading = False, currentSet = Some (release_bbb 0), cards = []\<rparr>"
proof -
  obtain e where "fetch_loop failing_source 0 (search_uri (release_bbb 0)) [] = Some (Inl e)"
    using fetch_loop_cut [OF failing_source_cut] by blast
  then have "fetchData (Inr (ex_releases 0)) 0 failing_source 0 initial_state
       = Some (initial_state\<lparr>loading := False, currentSet := Some (release_bbb 0)\<rparr>)"
    by (rule fetchData_threw [OF targetSet_example])
  then show ?thesis
    by (simp add: initial_state_def failing_source_def page_cut_def next_uri_def)
qed

text \<open>C5, amended: a page request in the middle of the loop can fail in two ways. When it
  throws (a network failure, a body that is not JSON), the exception is caught: the cards
  read so far go with the accumulator, and the sequence ends with the card list as it was
  before the fetch, the target release set and the loading flag cleared. When it returns a
  response without data and without a continuation (the error body of a non-success
  response), the loop ends there and the cards of the pages read before it are retained
  and published, sorted, as the card list, with the target release set and the loading
  flag cleared.\<close>

theorem fetchData_page_failure:
  "(targetSet rels now = Some t \<and> pages_then_error fetch w (search_uri t) ps \<longrightarrow>
      (\<exists>st'. fetchData (Inr rels) now fetch w st = Some st'
         \<and> cards st' = cards st \<and> currentSet st' = Some t \<and> loading st' = False))
   \<and> (targetSet rels now = Some t \<and> pages_from fetch w (search_uri t) (ps @ [q])
        \<and> data q = None \<and> next_uri q = None \<longrightarrow>
      fetchData (Inr rels) now fetch w st
        = Some (st\<lparr>loading := False, currentSet := Some t,
                    cards := sortedCards (concat (map page_cards ps))\<rparr>))"
proof (intro conjI impI)
  assume a: "targetSet rels now = Some t \<and> pages_then_error fetch w (search_uri t) ps"
  then obtain e where "fetch_loop fetch w (search_uri t) [] = Some (Inl e)"
    using fetch_loop_cut [of fetch w "search_uri t" ps "[]"] by blast
  with a have "fetchData (Inr rels) now fetch w st
                 = Some (st\<lparr>loading := False, currentSet := Some t\<rparr>)"
    by (simp add: fetchData_threw)
  then show "\<exists>st'. fetchData (Inr rels) now fetch w st = Some st'
         \<and> cards st' = cards st \<and> currentSet st' = Some t \<and> loading st' = False"
    by simp
next
  assume b: "targetSet rels now = Some t \<and> pages_from fetch w (search_uri t) (ps @ [q])
        \<and> data q = None \<and> next_uri q = None"
  then have "fetch_loop fetch w (search_uri t) []
               = Some (Inr ([] @ concat (map page_cards (ps @ [q]))))"
    using fetch_loop_pages [of fetch w "search_uri t" "ps @ [q]" "[]"] by blast
  moreover have "page_cards q = []" using b by (simp add: page_cards_def)
  ultimately have "fetch_loop fetch w (search_uri t) [] = Some (Inr (concat (map page_cards ps)))"
    by simp
  with b show "fetchData (Inr rels) now fetch w st
        = Some (st\<lparr>loading := False, currentSet := Some t,
                    cards := sortedCards (concat (map page_cards ps))\<rparr>)"
    by (simp add: fetchData_completed)
qed

theorem fetchData_page_failure_witness:
  "targetSet (ex_releases 0) 0 = Some (release_bbb 0)
   \<and> pages_then_error failing_source 0 (search_uri (release_bbb 0)) [page_cut]
   \<and> page_cards page_cut = [card_W1, card_R3]
   \<and> (\<exists>st'. fetchData (Inr (ex_releases 0)) 0 failing_source 0 initial_state = Some st'
        \<and> cards st' = [] \<and> currentSet st' = Some (release_bbb 0) \<and> loading st' = False)
   \<and> pages_from refusing_source 0 (search_uri (release_bbb 0)) ([page_cut] @ [error_body])
   \<and> data error_body = None \<and> next_uri error_body = None
   \<and> fetchData (Inr (ex_releases 0)) 0 refusing_source 0 initial_state
       = Some \<lparr>loading = False, currentSet = Some (release_bbb 0), cards = [card_W1, card_R3]\<rparr>"
proof -
  have c: "cards initial_state = []" by (simp add: initial_state_def)
  have p: "page_cards page_cut = [card_W1, card_R3]" by (simp add: page_cards_def page_cut_def)
  have e: "data error_body = None" "next_uri error_body = None"
    by (simp_all add: error_body_def next_uri_def)
  have s: "sortedCards [card_W1, card_R3] = [card_W1, card_R3]"
    by (simp add: sortedCards_def js_sort_def compareCards_def getColorIndex_def COLOR_ORDER_def
          card_W1_def card_R3_def)
  have i: "initial_state\<lparr>loading := False, currentSet := Some (release_bbb 0),
                           cards := [card_W1, card_R3]\<rparr>
             = \<lparr>loading = False, currentSet = Some (release_bbb 0), cards = [card_W1, card_R3]\<rparr>"
    by (simp add: initial_state_def)
  show ?thesis
    using fetchData_page_failure [where rels = "ex_releases 0" and now = 0 and t = "release_bbb 0"
             and fetch = failing_source and w = 0 and ps = "[page_cut]" and st = initial_state]
      fetchData_page_failure [where rels = "ex_releases 0" and now = 0 and t = "release_bbb 0"
             and fetch = refusing_source and w = 0 and ps = "[page_cut]" and q = error_body
             and st = initial_state]
      targetSet_example [of 0] failing_source_cut [of "search_uri (release_bbb 0)"]
      refusing_source_run [of "search_uri (release_bbb 0)"] c p e s i
    by simp
qed

text \<open>C10: in every state the sequence ends in, the loading flag is false: after a failed
  catalogue request, with no target release, after a page request that threw, and after
  the cards were stored. The sequence ends unless the pagination loop runs forever; the
  earlier variant always ends, with the flag false.\<close>

theorem fetchData_loading:
  "(fetchData sets_response now fetch w st = Some st' \<longrightarrow> loading st' = False)
   \<and> (fetchData sets_response now fetch w st = None \<longleftrightarrow>
        (\<exists>rels t. sets_response = Inr rels \<and> targetSet rels now = Some t
           \<and> fetch_loop fetch w (search_uri t) [] = None))
   \<and> fetchData (Inl e) now fetch w st = Some (st\<lparr>loading := False\<rparr>)
   \<and> (targetSet rels now = None \<longrightarrow>
        fetchData (Inr rels) now fetch w st = Some (st\<lparr>loading := False\<rparr>))
   \<and> (targetSet rels now = Some t \<and> fetch_loop fetch w (search_uri t) [] = Some (Inl e) \<longrightarrow>
        fetchData (Inr rels) now fetch w st = Some (st\<lparr>loading := False, currentSet := Some t\<rparr>))
   \<and> (targetSet rels now = Some t \<and> fetch_loop fetch w (search_uri t) [] = Some (Inr cs) \<longrightarrow>
        fetchData (Inr rels) now fetch w st
          = Some (st\<lparr>loading := False, currentSet := Some t, cards := sortedCards cs\<rparr>))
   \<and> loading (fetchData_App sets_response now fetch w st) = False"
proof -
  have 1: "fetchData sets_response now fetch w st = Some st' \<longrightarrow> loading st' = False"
    by (auto simp: fetchData_def split: option.splits prod.splits)
  have 7: "loading (fetchData_App sets_response now fetch w st) = False"
    by (simp add: fetchData_App_def split: prod.splits)
  show ?thesis
    using 1 7 fetchData_None [of sets_response now fetch w st]
      fetchData_sets_threw [of e now fetch w st]
      fetchData_no_target [of rels now fetch w st]
      fetchData_threw [of rels now t fetch w e st]
      fetchData_completed [of rels now t fetch w cs st]
    by blast
qed

theorem fetchData_loading_witness:
  "fetchData (Inr (ex_releases 0)) 0 failing_source 0 initial_state
       = Some (initial_state\<lparr>loading := False, currentSet := Some (release_bbb 0)\<rparr>)
   \<and> loading (initial_state\<lparr>loading := False, currentSet := Some (release_bbb 0)\<rparr>) = False
   \<and> targetSet [] 0 = None
   \<and> fetchData (Inr []) 0 failing_source 0 initial_state = Some (initial_state\<lparr>loading := False\<rparr>)"
proof -
  have a: "targetSet [] 0 = None"
    by (simp add: targetSet_def futureSets_def candidates_def js_sort_def Let_def)
  obtain e where b: "fetch_loop failing_source 0 (search_uri (release_bbb 0)) [] = Some (Inl e)"
    using fetch_loop_cut [OF failing_source_cut] by blast
  show ?thesis
    using fetchData_loading [where sets_response = "Inr (ex_releases 0)" and now = 0
             and fetch = failing_source and w = 0 and st = initial_state
             and st' = "initial_state\<lparr>loading := False, currentSet := Some (release_bbb 0)\<rparr>"
             and e = e and rels = "ex_releases 0" and t = "release_bbb 0"]
      fetchData_loading [where sets_response = "Inr []" and now = 0
             and fetch = failing_source and w = 0 and st = initial_state and rels = "[]"]
      targetSet_example [of 0] a b
    by simp
qed

text \<open>C6: for a two-faced red card without top-level colours, the filter and the image read the
  first face (the card passes the filter R, not the colourless one), but the rank of the
  sort is 6, the colourless class, so the card sorts after a multicolour card.\<close>

theorem first_face_colors_divergence:
  "colors card_DFC = None
   \<and> cardColors card_DFC = [''R'']
   \<and> keep_card [] (Some ''R'') card_DFC
   \<and> \<not> keep_card [] (Some ''C'') card_DFC
   \<and> card_img card_DFC = Some ''front.jpg''
   \<and> getColorIndex card_DFC = 6
   \<and> sortedCards [card_DFC, card_UB2, card_R3] = [card_R3, card_UB2, card_DFC]"
  by (simp add: card_DFC_def card_UB2_def card_R3_def cardColors_def first_face_def keep_card_def
        toLowerCase_def card_img_def getColorIndex_def COLOR_ORDER_def sortedCards_def js_sort_def
        compareCards_def Let_def)

subsection \<open>Countdown\<close>

text \<open>For a non-negative quotient of integers, the floor of the JavaScript remainder is the
  integer remainder of the integer quotient.\<close>

lemma js_rem_floor:
  fixes a b c :: int
  assumes "0 \<le> a" "0 < b" "0 < c" and x: "x = of_int a / of_int b" and y: "y = of_int c"
  shows "\<lfloor>js_rem x y\<rfloor> = (a div b) mod c"
proof -
  have q: "(of_int a / of_int b :: rat) / of_int c = of_int a / of_int (b * c)"
    by simp
  have nonneg: "0 \<le> (of_int a / of_int b :: rat) / of_int c"
    using assms by simp
  have "js_trunc ((of_int a / of_int b) / of_int c) = a div (b * c)"
    unfolding js_trunc_def using nonneg by (simp only: q if_True floor_divide_of_int_eq)
  then have "js_rem (of_int a / of_int b) (of_int c)
               = of_int a / of_int b - of_int (c * (a div (b * c)))"
    by (simp add: js_rem_def)
  then have "\<lfloor>js_rem (of_int a / of_int b) (of_int c)\<rfloor> = a div b - c * (a div (b * c))"
    by (simp only: floor_diff_of_int floor_divide_of_int_eq)
  also have "a div (b * c) = a div b div c"
    using assms by (simp only: zdiv_zmult2_eq less_imp_le)
  also have "a div b - c * (a div b div c) = (a div b) mod c"
    by (simp only: minus_mult_div_eq_mod)
  finally show ?thesis unfolding x y .
qed

lemma tick_pos:
  assumes "now < p"
  shows "tick p now = \<lparr>tl_d = (p - now) div 86400000, tl_h = (p - now) div 3600000 mod 24,
                        tl_m = (p - now) div 60000 mod 60, tl_s = (p - now) div 1000 mod 60\<rparr>"
proof -
  let ?n = "p - now"
  have pos: "0 \<le> ?n" using assms by simp
  have d: "\<lfloor>(of_int ?n :: rat) / (1000 * 60 * 60 * 24)\<rfloor> = ?n div 86400000"
    using floor_divide_of_int_eq [of ?n 86400000, where ?'a = rat] by simp
  have h: "\<lfloor>js_rem ((of_int ?n :: rat) / (1000 * 60 * 60)) 24\<rfloor> = ?n div 3600000 mod 24"
    by (rule js_rem_floor [OF pos]) simp_all
  have m: "\<lfloor>js_rem ((of_int ?n :: rat) / 1000 / 60) 60\<rfloor> = ?n div 60000 mod 60"
    by (rule js_rem_floor [OF pos]) simp_all
  have s: "\<lfloor>js_rem ((of_int ?n :: rat) / 1000) 60\<rfloor> = ?n div 1000 mod 60"
    by (rule js_rem_floor [OF pos]) simp_all
  have "\<not> (of_int ?n :: rat) \<le> 0" using assms by simp
  then show ?thesis
    unfolding tick_def Let_def by (simp only: if_False d h m s)
qed

lemma tick_nonpos: "p \<le> now \<Longrightarrow> tick p now = \<lparr>tl_d = 0, tl_h = 0, tl_m = 0, tl_s = 0\<rparr>"
  by (simp add: tick_def)

text \<open>C8: at or after the prerelease instant (equality included) the tick is all zeros; before
  it, the four fields are the integer decomposition of the millisecond difference: whole
  days, then hours, minutes and seconds by division and remainder. All four are
  non-negative, hours lie in 0..23, minutes and seconds in 0..59, and 1 day 2 hours
  3 minutes 4 seconds before the prerelease instant the tick is 1, 2, 3, 4.\<close>

theorem tick_spec:
  "(p \<le> now \<longrightarrow> tick p now = \<lparr>tl_d = 0, tl_h = 0, tl_m = 0, tl_s = 0\<rparr>)
   \<and> (now < p \<longrightarrow>
        tick p now = \<lparr>tl_d = (p - now) div 86400000, tl_h = (p - now) div 3600000 mod 24,
                       tl_m = (p - now) div 60000 mod 60, tl_s = (p - now) div 1000 mod 60\<rparr>)
   \<and> 0 \<le> tl_d (tick p now)
   \<and> 0 \<le> tl_h (tick p now) \<and> tl_h (tick p now) < 24
   \<and> 0 \<le> tl_m (tick p now) \<and> tl_m (tick p now) < 60
   \<and> 0 \<le> tl_s (tick p now) \<and> tl_s (tick p now) < 60
   \<and> tick (now + (1 * 86400000 + 2 * 3600000 + 3 * 60000 + 4 * 1000)) now
        = \<lparr>tl_d = 1, tl_h = 2, tl_m = 3, tl_s = 4\<rparr>"
proof (cases "p \<le> now")
  case True
  have ex: "tick (now + (1 * 86400000 + 2 * 3600000 + 3 * 60000 + 4 * 1000)) now
        = \<lparr>tl_d = 1, tl_h = 2, tl_m = 3, tl_s = 4\<rparr>"
    by (subst tick_pos) simp_all
  show ?thesis using True ex by (simp add: tick_nonpos)
next
  case False
  then have lt: "now < p" by simp
  have ex: "tick (now + (1 * 86400000 + 2 * 3600000 + 3 * 60000 + 4 * 1000)) now
        = \<lparr>tl_d = 1, tl_h = 2, tl_m = 3, tl_s = 4\<rparr>"
    by (subst tick_pos) simp_all
  have t: "tick p now = \<lparr>tl_d = (p - now) div 86400000, tl_h = (p - now) div 3600000 mod 24,
                       tl_m = (p - now) div 60000 mod 60, tl_s = (p - now) div 1000 mod 60\<rparr>"
    by (rule tick_pos [OF lt])
  have d: "0 \<le> (p - now) div 86400000" using lt by (simp add: pos_imp_zdiv_nonneg_iff)
  have h0: "0 \<le> (p - now) div 3600000 mod 24" by (rule pos_mod_sign) simp
  have h: "(p - now) div 3600000 mod 24 < 24" by (rule pos_mod_bound) simp
  have m0: "0 \<le> (p - now) div 60000 mod 60" by (rule pos_mod_sign) simp
  have m: "(p - now) div 60000 mod 60 < 60" by (rule pos_mod_bound) simp
  have s0: "0 \<le> (p - now) div 1000 mod 60" by (rule pos_mod_sign) simp
  have s: "(p - now) div 1000 mod 60 < 60" by (rule pos_mod_bound) simp
  have c1: "p \<le> now \<longrightarrow> tick p now = \<lparr>tl_d = 0, tl_h = 0, tl_m = 0, tl_s = 0\<rparr>"
    using False by blast
  have c2: "now < p \<longrightarrow>
        tick p now = \<lparr>tl_d = (p - now) div 86400000, tl_h = (p - now) div 3600000 mod 24,
                       tl_m = (p - now) div 60000 mod 60, tl_s = (p - now) div 1000 mod 60\<rparr>"
    using t by blast
  have sel: "tl_d (tick p now) = (p - now) div 86400000"
            "tl_h (tick p now) = (p - now) div 3600000 mod 24"
            "tl_m (tick p now) = (p - now) div 60000 mod 60"
            "tl_s (tick p now) = (p - now) div 1000 mod 60"
    by (simp_all only: t time_left.select_convs)
  show ?thesis
    by (intro conjI) (simp_all only: sel d h0 h m0 m s0 s ex, rule c1, rule c2)
qed

theorem tick_spec_witness:
  "(5::int) \<le> 5 \<and> tick 5 5 = \<lparr>tl_d = 0, tl_h = 0, tl_m = 0, tl_s = 0\<rparr>
   \<and> (0::int) < 93784000 \<and> tick 93784000 0 = \<lparr>tl_d = 1, tl_h = 2, tl_m = 3, tl_s = 4\<rparr>"
  using tick_spec [of 5 5] tick_spec [of 93784000 0] by simp

subsection \<open>Selection\<close>

text \<open>C9: toggling adds the id when it is absent and removes it when it is present, leaves
  the membership of every other id as it was, and toggling the same id twice gives back
  the starting set.\<close>

theorem toggleSelection_spec:
  "(i \<in> toggleSelection S i) = (i \<notin> S)
   \<and> toggleSelection S i - {i} = S - {i}
   \<and> toggleSelection (toggleSelection S i) i = S"
  by (auto simp: toggleSelection_def)

end
